theory Spec2Isabelle
  imports Complex_Main "HOL-Library.Sublist"
begin

section \<open>alamarBlue absorbance analysis: the model\<close>

text \<open>
  The theory embeds \<^verbatim>\<open>alamar_absorbance.py\<close>: the range parser
  \<^verbatim>\<open>get_replicate_cells_from_range\<close>, the absorbance calculator
  \<^verbatim>\<open>process_replicates\<close> and the part of \<^verbatim>\<open>main\<close> that starts once
  the worksheet is open (the selections, the two loops and the results table).

  Numbers are exact: a reading and every value derived from it is a rational, so the
  rounding and the overflow of binary floating point are outside the model. The
  values a numpy computation returns where no rational exists (the mean of an empty array,
  a division by zero) are kept as the constructors \<open>Infinity\<close> and \<open>NaN\<close> of
  \<open>npfloat\<close>; \<open>Infinity\<close> stands for either sign.
\<close>

subsection \<open>Errors and messages\<close>

datatype error = ValueError | CellCoordinatesException | TypeError | SelectionError

datatype message =
    MissingData string string
  | ErrorGettingRange error
  | NoValidControl
  | NoValidData string
  | RemovedOutliers string "rat set"

subsection \<open>Decimal row numbers\<close>

definition is_letter :: "char \<Rightarrow> bool" where
  "is_letter c =
     (let n = (of_char c :: nat) in (65 \<le> n \<and> n \<le> 90) \<or> (97 \<le> n \<and> n \<le> 122))"

definition is_digit :: "char \<Rightarrow> bool" where
  "is_digit c = (let n = (of_char c :: nat) in 48 \<le> n \<and> n \<le> 57)"

definition digit_char :: "nat \<Rightarrow> char" where
  "digit_char d = char_of (48 + d)"

definition digit_value :: "char \<Rightarrow> nat" where
  "digit_value c = of_char c - 48"

text \<open>The text that an f-string puts for a non-negative \<^verbatim>\<open>int\<close>.\<close>

function str_of_nat :: "nat \<Rightarrow> string" where
  "str_of_nat n =
     (if n < 10 then [digit_char n]
      else str_of_nat (n div 10) @ [digit_char (n mod 10)])"
  by pat_completeness auto
termination
  by (relation "measure (\<lambda>n. n)") auto

text \<open>\<^verbatim>\<open>int(s)\<close> on a string of decimal digits.\<close>

definition int_of_str :: "string \<Rightarrow> nat" where
  "int_of_str ds = foldl (\<lambda>acc c. 10 * acc + digit_value c) 0 ds"

subsection \<open>The range parser\<close>

text \<open>\<^verbatim>\<open>str.split(sep)\<close> for a separator of one character.\<close>

fun split_on :: "char \<Rightarrow> string \<Rightarrow> string list" where
  "split_on sep [] = [[]]"
| "split_on sep (c # cs) =
     (if c = sep then [] # split_on sep cs
      else (case split_on sep cs of
              [] \<Rightarrow> [[c]]
            | p # ps \<Rightarrow> (c # p) # ps))"

definition strip_dollar :: "string \<Rightarrow> string" where
  "strip_dollar s = (case s of [] \<Rightarrow> [] | c # cs \<Rightarrow> if c = CHR ''$'' then cs else s)"

text \<open>
  \<^verbatim>\<open>openpyxl.utils.cell.coordinate_from_string\<close> is a library function, modelled from
  its definition there: the string must match
  \<^verbatim>\<open>^[$]?([A-Za-z]{1,3})[$]?(\d+)$\<close>, the row is the integer of the digits, and row
  \<open>0\<close> is refused. The column is returned as it was written.
\<close>

definition coordinate_from_string :: "string \<Rightarrow> error + (string \<times> nat)" where
  "coordinate_from_string coord_string =
     (let s1 = strip_dollar coord_string;
          column = takeWhile is_letter s1;
          s2 = strip_dollar (dropWhile is_letter s1)
      in if column = [] \<or> 3 < length column \<or> s2 = [] \<or> \<not> list_all is_digit s2
         then Inl CellCoordinatesException
         else (let row = int_of_str s2
               in if row = 0 then Inl CellCoordinatesException else Inr (column, row)))"

text \<open>
  The loop \<^verbatim>\<open>for row in range(start_row, end_row + 1, 2)\<close>, with \<open>stop\<close> the
  exclusive bound \<^verbatim>\<open>end_row + 1\<close>.
\<close>

function replicate_rows :: "string \<Rightarrow> nat \<Rightarrow> nat \<Rightarrow> (string \<times> string) list" where
  "replicate_rows col row stop =
     (if row < stop
      then (col @ str_of_nat row, col @ str_of_nat (row + 1)) # replicate_rows col (row + 2) stop
      else [])"
  by pat_completeness auto
termination
  by (relation "measure (\<lambda>(col, row, stop). stop - row)") auto

text \<open>
  Unpacking the split into two names raises \<^verbatim>\<open>ValueError\<close> unless there are exactly
  two parts. The column of the end cell is parsed and then not used.
\<close>

definition get_replicate_cells_from_range :: "string \<Rightarrow> error + (string \<times> string) list" where
  "get_replicate_cells_from_range cell_range =
     (case split_on CHR '':'' cell_range of
        [start_cell, end_cell] \<Rightarrow>
          (case coordinate_from_string start_cell of
             Inl e \<Rightarrow> Inl e
           | Inr (start_col, start_row) \<Rightarrow>
               (case coordinate_from_string end_cell of
                  Inl e \<Rightarrow> Inl e
                | Inr (end_col, end_row) \<Rightarrow>
                    Inr (replicate_rows start_col start_row (end_row + 1))))
      | _ \<Rightarrow> Inl ValueError)"

subsection \<open>The absorbance calculator\<close>

text \<open>
  A cell holds a number or something that is not one; an empty cell has the value
  \<^verbatim>\<open>None\<close>, here \<open>None\<close> of the worksheet map. \<open>Text\<close> stands for every value on
  which the arithmetic of line 58 raises \<^verbatim>\<open>TypeError\<close>.
\<close>

datatype cell_value = Number rat | Text string

type_synonym worksheet = "string \<Rightarrow> cell_value option"

definition adjusted_absorbance :: "cell_value \<Rightarrow> cell_value \<Rightarrow> error + rat" where
  "adjusted_absorbance value_570 value_600 =
     (case (value_570, value_600) of
        (Number a, Number b) \<Rightarrow> Inr ((a * 117216) - (b * 80586))
      | _ \<Rightarrow> Inl TypeError)"

text \<open>
  The result is the warnings printed and then either the exception that ended the loop or
  the list \<^verbatim>\<open>replicate_values\<close>.
\<close>

fun process_replicates ::
  "worksheet \<Rightarrow> (string \<times> string) list \<Rightarrow> message list \<times> (error + rat list)" where
  "process_replicates sheet [] = ([], Inr [])"
| "process_replicates sheet ((cell_570, cell_600) # rest) =
     (case (sheet cell_570, sheet cell_600) of
        (Some value_570, Some value_600) \<Rightarrow>
          (case adjusted_absorbance value_570 value_600 of
             Inl e \<Rightarrow> ([], Inl e)
           | Inr adjusted \<Rightarrow>
               (case process_replicates sheet rest of
                  (msgs, Inl e) \<Rightarrow> (msgs, Inl e)
                | (msgs, Inr replicate_values) \<Rightarrow> (msgs, Inr (adjusted # replicate_values))))
      | _ \<Rightarrow>
          (case process_replicates sheet rest of
             (msgs, r) \<Rightarrow> (MissingData cell_570 cell_600 # msgs, r)))"

subsection \<open>numpy on exact numbers\<close>

datatype npfloat = Finite rat | Infinity | NaN

text \<open>The arithmetic mean of a non-empty list.\<close>

definition mean :: "rat list \<Rightarrow> rat" where
  "mean xs = sum_list xs / of_nat (length xs)"

text \<open>\<^verbatim>\<open>np.mean\<close>: the mean of an empty array is \<^verbatim>\<open>nan\<close> (with a warning).\<close>

definition np_mean :: "rat list \<Rightarrow> npfloat" where
  "np_mean xs = (if xs = [] then NaN else Finite (mean xs))"

fun np_div :: "npfloat \<Rightarrow> npfloat \<Rightarrow> npfloat" where
  "np_div NaN y = NaN"
| "np_div x NaN = NaN"
| "np_div (Finite a) (Finite b) =
     (if b = 0 then (if a = 0 then NaN else Infinity) else Finite (a / b))"
| "np_div (Finite a) Infinity = Finite 0"
| "np_div Infinity (Finite b) = Infinity"
| "np_div Infinity Infinity = NaN"

text \<open>Multiplication by a positive constant.\<close>

fun np_scale :: "npfloat \<Rightarrow> rat \<Rightarrow> npfloat" where
  "np_scale (Finite a) c = Finite (a * c)"
| "np_scale Infinity c = Infinity"
| "np_scale NaN c = NaN"

text \<open>
  Rounding to the nearest integer, a tie going to the even neighbour, as
  \<^verbatim>\<open>np.rint\<close> and Python's \<^verbatim>\<open>round\<close> do.
\<close>

definition round_half_even :: "rat \<Rightarrow> int" where
  "round_half_even x =
     (let f = \<lfloor>x\<rfloor>; d = x - of_int f
      in if d < 1 / 2 then f
         else if 1 / 2 < d then f + 1
         else if even f then f else f + 1)"

text \<open>\<^verbatim>\<open>round(x, ndigits)\<close> on a numpy float: scale, round, scale back.\<close>

definition round_to :: "nat \<Rightarrow> rat \<Rightarrow> rat" where
  "round_to ndigits x = of_int (round_half_even (x * 10 ^ ndigits)) / 10 ^ ndigits"

fun np_round :: "npfloat \<Rightarrow> nat \<Rightarrow> npfloat" where
  "np_round (Finite a) ndigits = Finite (round_to ndigits a)"
| "np_round Infinity ndigits = Infinity"
| "np_round NaN ndigits = NaN"

text \<open>
  \<^verbatim>\<open>np.percentile(a, q)\<close> with the default method: the array is sorted, the virtual
  index is \<open>(n - 1) * q / 100\<close>, and the result interpolates between the elements at
  its floor and at the next index (clipped to the last one). numpy's interpolation has two
  branches, which \<open>lerp\<close> keeps. The source calls it on more than two values only; on
  an empty list the model's value is arbitrary.
\<close>

definition lerp :: "rat \<Rightarrow> rat \<Rightarrow> rat \<Rightarrow> rat" where
  "lerp a b t = (if 1 / 2 \<le> t then b - (b - a) * (1 - t) else a + (b - a) * t)"

definition np_percentile :: "rat list \<Rightarrow> rat \<Rightarrow> rat" where
  "np_percentile a q =
     (let arr = sort a;
          n = length arr;
          virtual_index = of_nat (n - 1) * (q / 100);
          previous_index = nat \<lfloor>virtual_index\<rfloor>;
          next_index = min (previous_index + 1) (n - 1);
          gamma = virtual_index - of_nat previous_index
      in lerp (arr ! previous_index) (arr ! next_index) gamma)"

subsection \<open>The viability aggregator\<close>

text \<open>Lines 181 to 188: the interquartile filter, a boolean mask that keeps the order.\<close>

definition iqr_filter :: "rat list \<Rightarrow> rat list" where
  "iqr_filter replicate_values =
     (let Q1 = np_percentile replicate_values 25;
          Q3 = np_percentile replicate_values 75;
          IQR = Q3 - Q1;
          Tmin = Q1 - (3 / 2 * IQR);
          Tmax = Q3 + (3 / 2 * IQR)
      in filter (\<lambda>v. Tmin \<le> v \<and> v \<le> Tmax) replicate_values)"

text \<open>Lines 179 to 192.\<close>

definition filtered_values :: "bool \<Rightarrow> rat list \<Rightarrow> rat list" where
  "filtered_values remove_outliers replicate_values =
     (if remove_outliers \<and> 2 < length replicate_values
      then iqr_filter replicate_values
      else replicate_values)"

definition outlier_report :: "string \<Rightarrow> rat list \<Rightarrow> rat list \<Rightarrow> message list" where
  "outlier_report sample_name replicate_values filtered =
     (if length filtered \<noteq> length replicate_values
      then [RemovedOutliers sample_name (set replicate_values - set filtered)]
      else [])"

text \<open>Lines 194 to 198: the row appended for a sample, from its filtered values.\<close>

definition viability_row :: "npfloat \<Rightarrow> string \<Rightarrow> rat list \<Rightarrow> string \<times> npfloat" where
  "viability_row positive_control_average sample_name filtered =
     (let average = np_mean filtered;
          viability_percentage =
            np_round (np_scale (np_div average positive_control_average) 100) 1
      in (sample_name, viability_percentage))"

text \<open>The second loop, lines 174 to 198, over \<^verbatim>\<open>samples_data\<close>.\<close>

fun results_loop ::
  "bool \<Rightarrow> npfloat \<Rightarrow> (string \<times> rat list) list \<Rightarrow> message list \<times> (string \<times> npfloat) list" where
  "results_loop remove_outliers positive_control_average [] = ([], [])"
| "results_loop remove_outliers positive_control_average ((sample_name, replicate_values) # rest) =
     (let filtered = filtered_values remove_outliers replicate_values;
          report = outlier_report sample_name replicate_values filtered;
          row = viability_row positive_control_average sample_name filtered
      in (case results_loop remove_outliers positive_control_average rest of
            (msgs, rows) \<Rightarrow> (report @ msgs, row # rows)))"

text \<open>
  The \<^verbatim>\<open>try\<close> block around a selection (lines 109 to 114 and 149 to 154). The
  address Excel gives is \<open>None\<close> when the interaction itself raised; the dollar signs
  are removed before parsing.
\<close>

definition read_selection ::
  "worksheet \<Rightarrow> string option \<Rightarrow> message list \<times> (error + rat list)" where
  "read_selection sheet selection =
     (case selection of
        None \<Rightarrow> ([], Inl SelectionError)
      | Some address \<Rightarrow>
          (case get_replicate_cells_from_range (filter (\<lambda>c. c \<noteq> CHR ''$'') address) of
             Inl e \<Rightarrow> ([], Inl e)
           | Inr replicate_cells \<Rightarrow> process_replicates sheet replicate_cells))"

text \<open>The first loop, lines 137 to 168, which builds \<^verbatim>\<open>samples_data\<close>.\<close>

fun collect_samples ::
  "worksheet \<Rightarrow> (string \<times> string option) list \<Rightarrow> message list \<times> (string \<times> rat list) list" where
  "collect_samples sheet [] = ([], [])"
| "collect_samples sheet ((sample_name, selection) # rest) =
     (case collect_samples sheet rest of
        (msgs, samples_data) \<Rightarrow>
          (case read_selection sheet selection of
             (warnings, Inl e) \<Rightarrow> (warnings @ ErrorGettingRange e # msgs, samples_data)
           | (warnings, Inr replicate_values) \<Rightarrow>
               if replicate_values = []
               then (warnings @ NoValidData sample_name # msgs, samples_data)
               else (warnings @ msgs, (sample_name, replicate_values) # samples_data)))"

text \<open>
  What a run is given: the open worksheet, the answers typed at the prompts and the
  ranges selected in Excel, in the order they are asked for.
\<close>

record run_input =
  sheet :: worksheet
  positive_control_name :: string
  control_selection :: "string option"
  remove_outliers :: bool
  sample_selections :: "(string \<times> string option) list"

text \<open>
  A run ends by an early \<^verbatim>\<open>return\<close> or with the data rows of the results table
  (the header row is constant and left out).
\<close>

datatype outcome = Aborted | Table "(string \<times> npfloat) list"

definition main :: "run_input \<Rightarrow> message list \<times> outcome" where
  "main inp =
     (case read_selection (sheet inp) (control_selection inp) of
        (warnings, Inl e) \<Rightarrow> (warnings @ [ErrorGettingRange e], Aborted)
      | (warnings, Inr positive_control_replicate_values) \<Rightarrow>
          if positive_control_replicate_values = []
          then (warnings @ [NoValidControl], Aborted)
          else
            (let positive_control_average = np_mean positive_control_replicate_values;
                 positive_control_viability_percentage = Finite 100
             in (case collect_samples (sheet inp) (sample_selections inp) of
                   (msgs1, samples_data) \<Rightarrow>
                     (case results_loop (remove_outliers inp) positive_control_average samples_data of
                        (msgs2, rows) \<Rightarrow>
                          (warnings @ msgs1 @ msgs2,
                           Table ((positive_control_name inp, positive_control_viability_percentage)
                                  # rows))))))"

section \<open>Properties of the range parser\<close>

declare str_of_nat.simps [simp del]
declare replicate_rows.simps [simp del]

lemma digit_roundtrip: "d < 10 \<Longrightarrow> digit_value (digit_char d) = d"
  by (simp add: digit_value_def digit_char_def)

lemma digit_char_is_digit: "d < 10 \<Longrightarrow> is_digit (digit_char d)"
  by (simp add: is_digit_def digit_char_def)

lemma digit_not_letter: "is_digit c \<Longrightarrow> \<not> is_letter c"
  by (auto simp: is_digit_def is_letter_def Let_def)

lemma digit_not_dollar: "is_digit c \<Longrightarrow> c \<noteq> CHR ''$''"
  by (auto simp: is_digit_def)

lemma letter_not_dollar: "is_letter c \<Longrightarrow> c \<noteq> CHR ''$''"
  by (auto simp: is_letter_def)

lemma letter_not_colon: "is_letter c \<Longrightarrow> c \<noteq> CHR '':''"
  by (auto simp: is_letter_def)

lemma digit_not_colon: "is_digit c \<Longrightarrow> c \<noteq> CHR '':''"
  by (auto simp: is_digit_def)

lemma int_of_str_snoc: "int_of_str (ds @ [c]) = 10 * int_of_str ds + digit_value c"
  by (simp add: int_of_str_def)

lemma int_of_str_of_nat: "int_of_str (str_of_nat n) = n"
proof (induction n rule: str_of_nat.induct)
  case (1 n)
  show ?case
  proof (cases "n < 10")
    case True
    then show ?thesis
      by (subst str_of_nat.simps) (simp add: int_of_str_def digit_roundtrip)
  next
    case False
    then have "int_of_str (str_of_nat n) = 10 * (n div 10) + n mod 10"
      using "1.IH" by (subst str_of_nat.simps) (simp add: int_of_str_snoc digit_roundtrip)
    then show ?thesis by simp
  qed
qed

lemma str_of_nat_digits: "list_all is_digit (str_of_nat n)"
proof (induction n rule: str_of_nat.induct)
  case (1 n)
  then show ?case
    by (subst str_of_nat.simps) (simp add: digit_char_is_digit)
qed

lemma str_of_nat_nonempty: "str_of_nat n \<noteq> []"
  by (subst str_of_nat.simps) simp

lemma split_on_absent: "sep \<notin> set a \<Longrightarrow> split_on sep a = [a]"
  by (induction a) auto

lemma split_on_once:
  "sep \<notin> set a \<Longrightarrow> sep \<notin> set b \<Longrightarrow> split_on sep (a @ sep # b) = [a, b]"
  by (induction a) (auto simp: split_on_absent)

lemma digits_no_letter_prefix:
  "ds \<noteq> [] \<Longrightarrow> list_all is_digit ds \<Longrightarrow>
     takeWhile is_letter ds = [] \<and> dropWhile is_letter ds = ds \<and> strip_dollar ds = ds"
  by (cases ds) (auto simp: digit_not_letter digit_not_dollar strip_dollar_def)

lemma strip_dollar_letters:
  "col \<noteq> [] \<Longrightarrow> list_all is_letter col \<Longrightarrow> strip_dollar (col @ rest) = col @ rest"
  by (cases col) (auto simp: strip_dollar_def letter_not_dollar)

lemma coordinate_from_string_cell:
  assumes "col \<noteq> []" "length col \<le> 3" "list_all is_letter col" "0 < n"
  shows "coordinate_from_string (col @ str_of_nat n) = Inr (col, n)"
proof -
  let ?ds = "str_of_nat n"
  have ds: "?ds \<noteq> []" "list_all is_digit ?ds"
    by (simp_all add: str_of_nat_nonempty str_of_nat_digits)
  have s1: "strip_dollar (col @ ?ds) = col @ ?ds"
    using assms by (simp add: strip_dollar_letters)
  have all: "\<forall>c\<in>set col. is_letter c"
    using assms(3) by (simp add: list_all_iff)
  have tw: "takeWhile is_letter (col @ ?ds) = col"
    using all digits_no_letter_prefix [OF ds] by (simp add: takeWhile_append2)
  have dw: "dropWhile is_letter (col @ ?ds) = ?ds"
    using all digits_no_letter_prefix [OF ds] by (simp add: dropWhile_append2)
  have s2: "strip_dollar ?ds = ?ds"
    using digits_no_letter_prefix [OF ds] by simp
  show ?thesis
    using assms ds
    by (simp add: coordinate_from_string_def s1 tw dw s2 int_of_str_of_nat Let_def)
qed

lemma replicate_rows_closed:
  "replicate_rows col row stop =
     map (\<lambda>i. (col @ str_of_nat (row + 2 * i), col @ str_of_nat (row + 2 * i + 1)))
         [0..<(stop - row + 1) div 2]"
proof (induction col row stop rule: replicate_rows.induct)
  case (1 col row stop)
  show ?case
  proof (cases "row < stop")
    case False
    then show ?thesis by (subst replicate_rows.simps) simp
  next
    case True
    define k where "k = (stop - (row + 2) + 1) div 2"
    have cnt: "(stop - row + 1) div 2 = Suc k"
    proof -
      obtain d where d: "stop = row + Suc d"
        using True less_imp_Suc_add by (metis add_Suc_right)
      show ?thesis
        unfolding k_def d by (cases d) simp_all
    qed
    have "replicate_rows col row stop =
            (col @ str_of_nat row, col @ str_of_nat (row + 1)) # replicate_rows col (row + 2) stop"
      using True by (subst replicate_rows.simps) simp
    also have "replicate_rows col (row + 2) stop =
            map (\<lambda>i. (col @ str_of_nat (row + 2 + 2 * i), col @ str_of_nat (row + 2 + 2 * i + 1))) [0..<k]"
      using "1.IH" [OF True] by (simp add: k_def)
    also have "\<dots> = map (\<lambda>i. (col @ str_of_nat (row + 2 * i), col @ str_of_nat (row + 2 * i + 1)))
                       (map Suc [0..<k])"
      by (simp add: algebra_simps)
    finally show ?thesis
      unfolding cnt by (simp add: upt_conv_Cons [of 0] map_Suc_upt del: upt_Suc)
  qed
qed

lemma get_replicate_cells_single_column:
  assumes "col \<noteq> []" "length col \<le> 3" "list_all is_letter col" "0 < s" "0 < e"
  shows "get_replicate_cells_from_range (col @ str_of_nat s @ CHR '':'' # col @ str_of_nat e) =
           Inr (replicate_rows col s (e + 1))"
proof -
  have nocolon: "CHR '':'' \<notin> set (col @ str_of_nat n)" for n
    using assms(3) str_of_nat_digits [of n]
    by (auto simp: list_all_iff dest: letter_not_colon digit_not_colon)
  have "split_on CHR '':'' ((col @ str_of_nat s) @ CHR '':'' # (col @ str_of_nat e)) =
          [col @ str_of_nat s, col @ str_of_nat e]"
    by (rule split_on_once) (rule nocolon)+
  then show ?thesis
    using assms by (simp add: get_replicate_cells_from_range_def coordinate_from_string_cell)
qed

lemma odd_range_cells:
  assumes "col \<noteq> []" "length col \<le> 3" "list_all is_letter col" "0 < s" "s \<le> e" "even (e - s)"
  shows "\<exists>cells. get_replicate_cells_from_range (col @ str_of_nat s @ '':'' @ col @ str_of_nat e) = Inr cells
           \<and> length cells = (e - s) div 2 + 1
           \<and> last cells = (col @ str_of_nat e, col @ str_of_nat (e + 1))"
proof -
  obtain k where k: "e - s = 2 * k"
    using assms(6) by (rule evenE)
  with assms(5) have e: "e = s + 2 * k"
    by simp
  let ?f = "\<lambda>i. (col @ str_of_nat (s + 2 * i), col @ str_of_nat (s + 2 * i + 1))"
  have cnt: "(e + 1 - s + 1) div 2 = Suc k"
    unfolding e by simp
  have "get_replicate_cells_from_range (col @ str_of_nat s @ '':'' @ col @ str_of_nat e) =
          Inr (replicate_rows col s (e + 1))"
    using assms get_replicate_cells_single_column [of col s e] by simp
  then have r: "get_replicate_cells_from_range (col @ str_of_nat s @ '':'' @ col @ str_of_nat e) =
          Inr (map ?f [0..<Suc k])"
    by (simp only: replicate_rows_closed cnt)
  have "last (map ?f [0..<Suc k]) = ?f k"
    by simp
  moreover have "?f k = (col @ str_of_nat e, col @ str_of_nat (e + 1))"
    unfolding e by simp
  moreover have "length (map ?f [0..<Suc k]) = (e - s) div 2 + 1"
    unfolding e by simp
  ultimately show ?thesis
    using r by (intro exI [of _ "map ?f [0..<Suc k]"]) (simp only: simp_thms)
qed

section \<open>Properties of the absorbance calculator\<close>


lemma process_replicates_missing:
  assumes "ws c570 = None \<or> ws c600 = None"
  shows "process_replicates ws ((c570, c600) # rest) =
           (MissingData c570 c600 # fst (process_replicates ws rest),
            snd (process_replicates ws rest))"
  using assms by (auto split: option.splits prod.splits)

lemma process_replicates_cons_cong:
  assumes "snd (process_replicates ws xs) = snd (process_replicates ws ys)"
  shows "snd (process_replicates ws (p # xs)) = snd (process_replicates ws (p # ys))"
proof -
  obtain c1 c2 where p: "p = (c1, c2)" by (cases p)
  obtain m1 r1 where x: "process_replicates ws xs = (m1, r1)" by (cases "process_replicates ws xs")
  obtain m2 r2 where y: "process_replicates ws ys = (m2, r2)" by (cases "process_replicates ws ys")
  have r: "r1 = r2" using assms x y by simp
  show ?thesis
    unfolding p by (simp add: x y r split: option.splits sum.splits)
qed

lemma process_replicates_skip:
  assumes "ws c570 = None \<or> ws c600 = None"
  shows "snd (process_replicates ws (pre @ (c570, c600) # post)) =
         snd (process_replicates ws (pre @ post))"
proof (induction pre)
  case Nil
  show ?case
    by (simp only: append_Nil process_replicates_missing [OF assms] snd_conv)
next
  case (Cons p pre)
  show ?case
    using process_replicates_cons_cong [OF Cons.IH] by simp
qed

section \<open>Properties of a whole run\<close>

lemma results_loop_rows:
  "snd (results_loop remove pc samples_data) =
     map (\<lambda>(name, vs). viability_row pc name (filtered_values remove vs)) samples_data"
  by (induction samples_data) (auto simp: Let_def split: prod.splits)

lemma results_loop_names:
  "map fst (snd (results_loop remove pc samples_data)) = map fst samples_data"
  by (simp add: results_loop_rows split_def viability_row_def Let_def)

lemma results_loop_messages:
  "m \<in> set (fst (results_loop remove pc samples_data)) \<Longrightarrow> \<exists>n S. m = RemovedOutliers n S"
  by (induction samples_data)
     (auto simp: Let_def outlier_report_def split: prod.splits if_splits)

lemma collect_samples_names:
  "map fst (snd (collect_samples ws sels)) =
     map fst (filter (\<lambda>(n, sel). case snd (read_selection ws sel) of
                                      Inl e \<Rightarrow> False
                                    | Inr vs \<Rightarrow> vs \<noteq> []) sels)"
proof (induction sels)
  case Nil
  show ?case by simp
next
  case (Cons x sels)
  obtain n sel where x: "x = (n, sel)" by (cases x)
  obtain w r where r: "read_selection ws sel = (w, r)" by (cases "read_selection ws sel")
  obtain ms sd where c: "collect_samples ws sels = (ms, sd)" by (cases "collect_samples ws sels")
  show ?case
    using Cons.IH unfolding x by (cases r) (simp_all add: r c)
qed

lemma main_no_control:
  assumes "read_selection (sheet inp) (control_selection inp) = (warnings, Inr [])"
  shows "main inp = (warnings @ [NoValidControl], Aborted)"
  using assms by (simp add: main_def)

lemma main_table:
  assumes "read_selection (sheet inp) (control_selection inp) = (warnings, Inr pcv)" "pcv \<noteq> []"
  shows "snd (main inp) =
           Table ((positive_control_name inp, Finite 100)
                  # snd (results_loop (remove_outliers inp) (np_mean pcv)
                           (snd (collect_samples (sheet inp) (sample_selections inp)))))"
  using assms by (simp add: main_def Let_def split: prod.splits)

lemma main_table_cases:
  assumes "main inp = (msgs, Table rows)"
  shows "\<exists>warnings pcv. read_selection (sheet inp) (control_selection inp) = (warnings, Inr pcv)
           \<and> pcv \<noteq> []"
  using assms by (auto simp: main_def Let_def split: prod.splits sum.splits if_splits)

section \<open>Claims about the range parser and the absorbance calculator\<close>

text \<open>
  C2. A single-column range \<open>col startRow : col endRow\<close> with an even number of rows
  (\<open>endRow - startRow\<close> odd) is parsed into the pairs
  \<open>(col (startRow + 2 i), col (startRow + 2 i + 1))\<close> in row order, one per two rows;
  on \<^verbatim>\<open>A1:A8\<close> these are (A1, A2), (A3, A4), (A5, A6), (A7, A8). The column is one
  to three letters and the first row is at least 1, as openpyxl requires of a cell
  address.
\<close>

theorem get_replicate_cells_even_range:
  "(col \<noteq> [] \<and> length col \<le> 3 \<and> list_all is_letter col \<and> 0 < s \<and> s \<le> e \<and> odd (e - s) \<longrightarrow>
      get_replicate_cells_from_range (col @ str_of_nat s @ '':'' @ col @ str_of_nat e) =
        Inr (map (\<lambda>i. (col @ str_of_nat (s + 2 * i), col @ str_of_nat (s + 2 * i + 1)))
                 [0..<(e - s + 1) div 2]))
   \<and> get_replicate_cells_from_range ''A1:A8'' =
        Inr [(''A1'', ''A2''), (''A3'', ''A4''), (''A5'', ''A6''), (''A7'', ''A8'')]"
proof (intro conjI impI)
  assume a: "col \<noteq> [] \<and> length col \<le> 3 \<and> list_all is_letter col \<and> 0 < s \<and> s \<le> e \<and> odd (e - s)"
  then have "odd (e - s)"
    by blast
  then obtain k where k: "e - s = 2 * k + 1"
    by (rule oddE)
  with a have "e = s + (2 * k + 1)"
    by simp
  then have cnt: "(e + 1 - s + 1) div 2 = (e - s + 1) div 2"
    by simp
  have "get_replicate_cells_from_range (col @ str_of_nat s @ '':'' @ col @ str_of_nat e) =
          Inr (replicate_rows col s (e + 1))"
    using a get_replicate_cells_single_column [of col s e] by simp
  then show "get_replicate_cells_from_range (col @ str_of_nat s @ '':'' @ col @ str_of_nat e) =
        Inr (map (\<lambda>i. (col @ str_of_nat (s + 2 * i), col @ str_of_nat (s + 2 * i + 1)))
                 [0..<(e - s + 1) div 2])"
    by (simp only: replicate_rows_closed cnt)
next
  show "get_replicate_cells_from_range ''A1:A8'' =
        Inr [(''A1'', ''A2''), (''A3'', ''A4''), (''A5'', ''A6''), (''A7'', ''A8'')]"
    by code_simp
qed

theorem get_replicate_cells_even_range_witness:
  "(''B'' \<noteq> [] \<and> length ''B'' \<le> 3 \<and> list_all is_letter ''B'' \<and> (0::nat) < 3 \<and> (3::nat) \<le> 6
      \<and> odd (6 - 3 :: nat))
   \<and> get_replicate_cells_from_range ''B3:B6'' = Inr [(''B3'', ''B4''), (''B5'', ''B6'')]"
proof -
  have h: "''B'' \<noteq> [] \<and> length ''B'' \<le> 3 \<and> list_all is_letter ''B'' \<and> (0::nat) < 3 \<and> (3::nat) \<le> 6
      \<and> odd (6 - 3 :: nat)"
    by (simp add: is_letter_def)
  have s: "str_of_nat 3 = ''3''" "str_of_nat 4 = ''4''" "str_of_nat 5 = ''5''" "str_of_nat 6 = ''6''"
    by code_simp+
  have u: "[0..<(6 - 3 + 1) div 2] = [0, Suc 0]"
    by (simp add: upt_rec)
  from get_replicate_cells_even_range [THEN conjunct1, of "''B''" 3 6] h
  have "get_replicate_cells_from_range (''B'' @ str_of_nat 3 @ '':'' @ ''B'' @ str_of_nat 6) =
        Inr (map (\<lambda>i. (''B'' @ str_of_nat (3 + 2 * i), ''B'' @ str_of_nat (3 + 2 * i + 1)))
                 [0..<(6 - 3 + 1) div 2])"
    by blast
  then show ?thesis
    using h unfolding u by (simp add: s)
qed

text \<open>
  C8. A single-column range with an odd number of rows (\<open>endRow - startRow\<close> even)
  still yields a pair for its last row: the first cell of the final pair is the last row
  of the selection and the second cell has row \<open>endRow + 1\<close>, one row past it.
\<close>

theorem get_replicate_cells_odd_range_overrun:
  assumes "col \<noteq> []" "length col \<le> 3" "list_all is_letter col" "0 < s" "s \<le> e" "even (e - s)"
  shows "\<exists>cells. get_replicate_cells_from_range (col @ str_of_nat s @ '':'' @ col @ str_of_nat e) = Inr cells
           \<and> cells \<noteq> []
           \<and> fst (last cells) = col @ str_of_nat e
           \<and> snd (last cells) = col @ str_of_nat (e + 1)"
proof -
  obtain cells where c:
    "get_replicate_cells_from_range (col @ str_of_nat s @ '':'' @ col @ str_of_nat e) = Inr cells"
    "length cells = (e - s) div 2 + 1"
    "last cells = (col @ str_of_nat e, col @ str_of_nat (e + 1))"
    using odd_range_cells [OF assms] by blast
  from c(2) have "cells \<noteq> []"
    by auto
  with c(1,3) show ?thesis
    by simp
qed

theorem get_replicate_cells_odd_range_overrun_witness:
  "\<exists>cells. get_replicate_cells_from_range ''A1:A7'' = Inr cells \<and> cells \<noteq> []
     \<and> fst (last cells) = ''A7'' \<and> snd (last cells) = ''A8''"
proof -
  have s: "str_of_nat (Suc 0) = ''1''" "str_of_nat 7 = ''7''" "str_of_nat 8 = ''8''"
    by code_simp+
  have "list_all is_letter ''A''"
    by (simp add: is_letter_def)
  then show ?thesis
    using get_replicate_cells_odd_range_overrun [of "''A''" 1 7] by (simp add: s)
qed




text \<open>
  C5. A replicate pair with an absent reading, wherever it stands in the list, leaves the
  outcome of \<open>process_replicates\<close> (the values, or the exception another pair raises)
  as it is without the pair, and so also the average; all the pair adds is its warning.
\<close>

theorem process_replicates_skips_missing:
  assumes "ws c570 = None \<or> ws c600 = None"
  shows "snd (process_replicates ws (pre @ (c570, c600) # post)) =
           snd (process_replicates ws (pre @ post))
         \<and> map_sum id np_mean (snd (process_replicates ws (pre @ (c570, c600) # post))) =
           map_sum id np_mean (snd (process_replicates ws (pre @ post)))
         \<and> process_replicates ws ((c570, c600) # post) =
           (MissingData c570 c600 # fst (process_replicates ws post),
            snd (process_replicates ws post))"
  using process_replicates_skip [OF assms, of pre post] process_replicates_missing [OF assms, of post]
  by simp

theorem process_replicates_skips_missing_witness:
  "snd (process_replicates [''A1'' \<mapsto> Number (1 / 2), ''A2'' \<mapsto> Number (1 / 5), ''A3'' \<mapsto> Number 1]
          [(''A1'', ''A2''), (''A3'', ''A4'')]) = Inr [212454 / 5]"
proof -
  let ?ws = "[''A1'' \<mapsto> Number (1 / 2), ''A2'' \<mapsto> Number (1 / 5), ''A3'' \<mapsto> Number 1]"
  have h: "?ws ''A3'' = None \<or> ?ws ''A4'' = None"
    by simp
  from process_replicates_skips_missing [of ?ws "''A3''" "''A4''" "[(''A1'', ''A2'')]" "[]"] h
  show ?thesis
    by (simp add: adjusted_absorbance_def)
qed

section \<open>Claims about a whole run\<close>

text \<open>
  C6. When the positive control's selection yields no valid replicate value, the run ends
  there: after the control's own warnings the only message is the one about the control,
  nothing is read from the samples, and there is no table (no average, no percentage).
\<close>

theorem main_aborts_without_control:
  assumes "snd (read_selection (sheet inp) (control_selection inp)) = Inr []"
  shows "main inp =
           (fst (read_selection (sheet inp) (control_selection inp)) @ [NoValidControl], Aborted)
         \<and> (\<forall>rows. snd (main inp) \<noteq> Table rows)"
proof -
  have "read_selection (sheet inp) (control_selection inp) =
          (fst (read_selection (sheet inp) (control_selection inp)), Inr [])"
    using assms by (simp add: prod_eq_iff)
  then have "main inp =
           (fst (read_selection (sheet inp) (control_selection inp)) @ [NoValidControl], Aborted)"
    by (rule main_no_control)
  then show ?thesis
    by simp
qed

theorem main_aborts_without_control_witness:
  "main \<lparr>sheet = Map.empty, positive_control_name = ''PC'',
          control_selection = Some ''$A$1:$A$2'', remove_outliers = False,
          sample_selections = [(''s1'', Some ''$B$1:$B$2'')]\<rparr> =
     ([MissingData ''A1'' ''A2'', NoValidControl], Aborted)"
proof -
  let ?inp = "\<lparr>sheet = Map.empty, positive_control_name = ''PC'',
          control_selection = Some ''$A$1:$A$2'', remove_outliers = False,
          sample_selections = [(''s1'', Some ''$B$1:$B$2'')]\<rparr>"
  have r: "read_selection Map.empty (Some ''$A$1:$A$2'') = ([MissingData ''A1'' ''A2''], Inr [])"
    by code_simp
  then have "snd (read_selection (sheet ?inp) (control_selection ?inp)) = Inr []"
    by simp
  from main_aborts_without_control [OF this] show ?thesis
    by (simp add: r)
qed

text \<open>
  C7. Whenever a run produces a table, its first data row is the positive control with
  the viability \<open>100.0\<close>, a constant that no replicate value enters; the rows after it
  are the samples whose selection gave at least one value, in the order they were entered.
\<close>

theorem main_table_control_first:
  assumes "main inp = (msgs, Table rows)"
  shows "rows \<noteq> []
       \<and> hd rows = (positive_control_name inp, Finite 100)
       \<and> map fst (tl rows) =
           map fst (filter (\<lambda>(n, sel). case snd (read_selection (sheet inp) sel) of
                                            Inl e \<Rightarrow> False
                                          | Inr vs \<Rightarrow> vs \<noteq> [])
                           (sample_selections inp))
       \<and> subseq (map fst (tl rows)) (map fst (sample_selections inp))"
proof -
  obtain warnings pcv where c:
    "read_selection (sheet inp) (control_selection inp) = (warnings, Inr pcv)" "pcv \<noteq> []"
    using main_table_cases [OF assms] by blast
  let ?loop = "results_loop (remove_outliers inp) (np_mean pcv)
                 (snd (collect_samples (sheet inp) (sample_selections inp)))"
  have "Table rows = Table ((positive_control_name inp, Finite 100) # snd ?loop)"
    using main_table [OF c] assms by simp
  then have rows: "rows = (positive_control_name inp, Finite 100) # snd ?loop"
    by simp
  have names: "map fst (tl rows) =
           map fst (filter (\<lambda>(n, sel). case snd (read_selection (sheet inp) sel) of
                                            Inl e \<Rightarrow> False
                                          | Inr vs \<Rightarrow> vs \<noteq> [])
                           (sample_selections inp))"
    unfolding rows by (simp only: list.sel results_loop_names collect_samples_names)
  have "subseq (map fst (tl rows)) (map fst (sample_selections inp))"
    unfolding names by (intro subseq_map subseq_filter_left)
  with rows names show ?thesis
    by simp
qed

theorem main_table_control_first_witness:
  "\<exists>msgs rows.
     main \<lparr>sheet = [''A1'' \<mapsto> Number 1, ''A2'' \<mapsto> Number (1 / 2), ''B1'' \<mapsto> Number 1,
                     ''B2'' \<mapsto> Number 1],
           positive_control_name = ''PC'', control_selection = Some ''$A$1:$A$2'',
           remove_outliers = True,
           sample_selections = [(''s1'', Some ''$B$1:$B$2''), (''s2'', None),
                                (''s3'', Some ''$C$1:$C$2''), (''s4'', Some ''$A$1:$A$2'')]\<rparr> =
       (msgs, Table rows)
     \<and> hd rows = (''PC'', Finite 100)
     \<and> subseq (map fst (tl rows)) [''s1'', ''s2'', ''s3'', ''s4'']"
proof -
  let ?inp = "\<lparr>sheet = [''A1'' \<mapsto> Number 1, ''A2'' \<mapsto> Number (1 / 2), ''B1'' \<mapsto> Number 1,
                     ''B2'' \<mapsto> Number 1],
           positive_control_name = ''PC'', control_selection = Some ''$A$1:$A$2'',
           remove_outliers = True,
           sample_selections = [(''s1'', Some ''$B$1:$B$2''), (''s2'', None),
                                (''s3'', Some ''$C$1:$C$2''), (''s4'', Some ''$A$1:$A$2'')]\<rparr>"
  have m: "main ?inp =
      ([ErrorGettingRange SelectionError, MissingData ''C1'' ''C2'', NoValidData ''s3''],
       Table [(''PC'', Finite 100), (''s1'', Finite (238 / 5)), (''s4'', Finite 100)])"
    by code_simp
  from main_table_control_first [OF m]
  have "hd [(''PC'', Finite 100), (''s1'', Finite (238 / 5)), (''s4'', Finite 100)] = (''PC'', Finite 100)
      \<and> subseq (map fst (tl [(''PC'', Finite 100), (''s1'', Finite (238 / 5)), (''s4'', Finite 100)]))
           [''s1'', ''s2'', ''s3'', ''s4'']"
    by simp
  with m show ?thesis
    by blast
qed

end
